theory Spec2Isabelle
  imports Main
begin

unbundle bit_operations_syntax

section \<open>Regular expressions as the program uses them\<close>

text \<open>
  The program relies on Python's \<^verbatim>\<open>re\<close> module for two patterns that are built from
  bracket expressions, concatenation, counted repetition \<^verbatim>\<open>{n}\<close>, capturing groups and
  the anchors \<^verbatim>\<open>^\<close> and \<^verbatim>\<open>$\<close>. A pattern of this fragment offers the backtracking
  matcher no choice, so matching at a position yields at most one end position.
  A position in the subject is the pair of the index reached and the text still unread.
\<close>

datatype class_item = Lit char | Range char char

datatype regex =
    Class "class_item list"
  | Seq regex regex
  | Rep nat regex
  | Group regex
  | Bol
  | Eol

fun item_matches :: "class_item \<Rightarrow> char \<Rightarrow> bool" where
  "item_matches (Lit a) c = (c = a)"
| "item_matches (Range lo hi) c =
     ((of_char lo :: nat) \<le> of_char c \<and> (of_char c :: nat) \<le> of_char hi)"

definition in_class :: "class_item list \<Rightarrow> char \<Rightarrow> bool" where
  "in_class items c = list_ex (\<lambda>it. item_matches it c) items"

definition newline :: char where
  "newline = CHR 0x0A"

text \<open>
  \<^verbatim>\<open>^\<close> (without MULTILINE) matches at index 0 only; \<^verbatim>\<open>$\<close> (without MULTILINE) matches
  at the end of the subject and also just before a newline that ends the subject.
\<close>

primrec weight :: "regex \<Rightarrow> nat" where
  "weight (Class items) = 1"
| "weight (Seq r1 r2) = Suc (weight r1 + weight r2)"
| "weight (Rep n r) = Suc (n + weight r)"
| "weight (Group r) = Suc (weight r)"
| "weight Bol = 1"
| "weight Eol = 1"

function (sequential) rmatch :: "regex \<Rightarrow> nat \<times> string \<Rightarrow> (nat \<times> string) option" where
  "rmatch (Class items) (i, []) = None"
| "rmatch (Class items) (i, c # cs) = (if in_class items c then Some (Suc i, cs) else None)"
| "rmatch (Seq r1 r2) p = (case rmatch r1 p of None \<Rightarrow> None | Some q \<Rightarrow> rmatch r2 q)"
| "rmatch (Rep 0 r) p = Some p"
| "rmatch (Rep (Suc n) r) p = (case rmatch r p of None \<Rightarrow> None | Some q \<Rightarrow> rmatch (Rep n r) q)"
| "rmatch (Group r) p = rmatch r p"
| "rmatch Bol (i, cs) = (if i = 0 then Some (i, cs) else None)"
| "rmatch Eol (i, cs) = (if cs = [] \<or> cs = [newline] then Some (i, cs) else None)"
  by pat_completeness auto
termination
  by (relation "measure (\<lambda>(r, p). weight r)") auto

text \<open>
  \<^verbatim>\<open>pattern.match(s)\<close> tries index 0 only; \<^verbatim>\<open>re.search(pattern, s)\<close> tries every start
  index from the left and stops at the first that matches. Both results are represented
  by \<^verbatim>\<open>group(0)\<close>, the matched text, with \<open>None\<close> for Python's \<^verbatim>\<open>None\<close>.
\<close>

definition re_match :: "regex \<Rightarrow> string \<Rightarrow> string option" where
  "re_match r s = (case rmatch r (0, s) of None \<Rightarrow> None | Some (j, rest) \<Rightarrow> Some (take j s))"

fun search_from :: "regex \<Rightarrow> nat \<Rightarrow> string \<Rightarrow> string option" where
  "search_from r i [] =
     (case rmatch r (i, []) of None \<Rightarrow> None | Some (j, rest) \<Rightarrow> Some [])"
| "search_from r i (c # cs) =
     (case rmatch r (i, c # cs) of
        None \<Rightarrow> search_from r (Suc i) cs
      | Some (j, rest) \<Rightarrow> Some (take (j - i) (c # cs)))"

definition re_search :: "regex \<Rightarrow> string \<Rightarrow> string option" where
  "re_search r s = search_from r 0 s"

section \<open>The address patterns\<close>

text \<open>
  \<^verbatim>\<open>[0-9A-Fa-f]\<close>, \<^verbatim>\<open>[:-]\<close> and \<^verbatim>\<open>([0-9A-Fa-f]{2}[:-]){5}([0-9A-Fa-f]{2})\<close>, the pattern
  of \<^verbatim>\<open>get_current_mac\<close>; \<^verbatim>\<open>validate_mac\<close> puts it between \<^verbatim>\<open>^\<close> and \<^verbatim>\<open>$\<close>.
\<close>

definition hex_class :: regex where
  "hex_class = Class [Range (CHR ''0'') (CHR ''9''), Range (CHR ''A'') (CHR ''F''),
                      Range (CHR ''a'') (CHR ''f'')]"

definition sep_class :: regex where
  "sep_class = Class [Lit (CHR '':''), Lit (CHR ''-'')]"

definition mac_regex :: regex where
  "mac_regex = Seq (Rep 5 (Group (Seq (Rep 2 hex_class) sep_class))) (Group (Rep 2 hex_class))"

definition validate_regex :: regex where
  "validate_regex = Seq Bol (Seq mac_regex Eol)"

definition validate_mac :: "string \<Rightarrow> bool" where
  "validate_mac mac = (re_match validate_regex mac \<noteq> None)"

section \<open>Strings and numbers of the Python library\<close>

text \<open>
  Characters are code points; the model covers the code points below 256. On these,
  \<^verbatim>\<open>str.lower()\<close> moves \<^verbatim>\<open>A-Z\<close> and the Latin-1 capitals (U+00C0 to U+00DE without
  U+00D7) up by 32 and leaves every other character alone.
\<close>

definition lower_char :: "char \<Rightarrow> char" where
  "lower_char c =
     (let n = (of_char c :: nat)
      in if (65 \<le> n \<and> n \<le> 90) \<or> (192 \<le> n \<and> n \<le> 214) \<or> (216 \<le> n \<and> n \<le> 222)
         then char_of (n + 32) else c)"

definition lower :: "string \<Rightarrow> string" where
  "lower s = map lower_char s"

text \<open>\<^verbatim>\<open>sep.join(parts)\<close>.\<close>

fun join :: "string \<Rightarrow> string list \<Rightarrow> string" where
  "join sep [] = []"
| "join sep [g] = g"
| "join sep (g # h # gs) = g @ sep @ join sep (h # gs)"

text \<open>
  \<^verbatim>\<open>f'{octet:02x}'\<close>: lowercase hexadecimal, padded with zeros to two characters; a
  negative number is written with its sign, which counts for the width.
\<close>

definition hex_char :: "nat \<Rightarrow> char" where
  "hex_char d = ''0123456789abcdef'' ! (d mod 16)"

function hex_digits :: "nat \<Rightarrow> string" where
  "hex_digits n = (if n < 16 then [hex_char n] else hex_digits (n div 16) @ [hex_char (n mod 16)])"
  by pat_completeness auto
termination
  by (relation "measure (\<lambda>n. n)") auto

definition format_02x :: "int \<Rightarrow> string" where
  "format_02x n =
     (if n < 0 then CHR ''-'' # hex_digits (nat (- n))
      else (let ds = hex_digits (nat n) in replicate (2 - length ds) (CHR ''0'') @ ds))"

section \<open>Random addresses\<close>

text \<open>
  \<^verbatim>\<open>generate_random_mac\<close>. The random source is the parameter \<open>randint\<close>: its value at
  \<open>k\<close> is what the \<open>k\<close>-th call \<^verbatim>\<open>random.randint(0x00, 0xff)\<close> of the comprehension
  returns.
\<close>

definition generate_random_mac :: "(nat \<Rightarrow> int) \<Rightarrow> string" where
  "generate_random_mac randint =
     (let mac = map randint [0..<6];
          mac = mac[0 := (mac ! 0 AND 0xfe) OR 0x02]
      in join '':'' (map format_02x mac))"

section \<open>The operating system and the terminal\<close>

text \<open>
  Bytes captured from a child process are kept by what \<^verbatim>\<open>.decode('utf-8')\<close> makes of
  them: the text, or a failure when they are not valid UTF-8.
\<close>

datatype bytes = Utf8 string | Malformed

text \<open>
  What running a command can do: complete with a return code, its standard output and
  its standard error; fail to start (or fail in another way that raises a subclass of
  \<^verbatim>\<open>Exception\<close>, with the text of \<^verbatim>\<open>str(e)\<close>); or be interrupted from the keyboard
  while the program waits for it.
\<close>

datatype proc_result =
    Completed int bytes bytes
  | Failed string
  | Interrupted

datatype py_exception =
    CalledProcessError "string list" int "bytes option"
  | UnicodeDecodeError
  | OtherException string

datatype exn = KeyboardInterrupt | SystemExit int | Exception py_exception

text \<open>
  The printing helpers \<^verbatim>\<open>_success\<close>, \<^verbatim>\<open>_info\<close>, \<^verbatim>\<open>_warning\<close>, \<^verbatim>\<open>_error\<close> and the
  other \<^verbatim>\<open>print\<close> calls append to the terminal; a line is recorded by the helper that
  wrote it and its message. Where a message ends in \<^verbatim>\<open>str(e)\<close> the exception is
  recorded in place of its text.
\<close>

datatype message =
    Banner
  | Help
  | Success string
  | Info string
  | Warning string
  | Error string
  | ErrorExc string py_exception
  | IfaceLine string "string option"
  | Cancelled

record world =
  executed :: "string list list"
  printed :: "message list"

type_synonym os = "string list list \<Rightarrow> string list \<Rightarrow> proc_result"

definition emit :: "message \<Rightarrow> world \<Rightarrow> world" where
  "emit line w = w\<lparr>printed := printed w @ [line]\<rparr>"

definition run_process :: "os \<Rightarrow> string list \<Rightarrow> world \<Rightarrow> proc_result \<times> world" where
  "run_process env cmd w = (env (executed w) cmd, w\<lparr>executed := executed w @ [cmd]\<rparr>)"

text \<open>
  \<^verbatim>\<open>subprocess.check_output(cmd, stderr=DEVNULL)\<close> and
  \<^verbatim>\<open>subprocess.run(cmd, check=..., stderr=...)\<close>: a return code other than 0 raises
  \<^verbatim>\<open>CalledProcessError\<close> from \<^verbatim>\<open>check_output\<close> and from \<^verbatim>\<open>run\<close> with \<^verbatim>\<open>check=True\<close>;
  the exception carries the standard error only when it was captured (\<^verbatim>\<open>stderr=PIPE\<close>).
\<close>

definition check_output :: "os \<Rightarrow> string list \<Rightarrow> world \<Rightarrow> (exn + bytes) \<times> world" where
  "check_output env cmd w =
     (case run_process env cmd w of
        (Interrupted, w1) \<Rightarrow> (Inl KeyboardInterrupt, w1)
      | (Failed msg, w1) \<Rightarrow> (Inl (Exception (OtherException msg)), w1)
      | (Completed rc out err, w1) \<Rightarrow>
          if rc \<noteq> 0 then (Inl (Exception (CalledProcessError cmd rc None)), w1)
          else (Inr out, w1))"

definition subprocess_run ::
  "os \<Rightarrow> string list \<Rightarrow> bool \<Rightarrow> bool \<Rightarrow> world \<Rightarrow> (exn + unit) \<times> world" where
  "subprocess_run env cmd check pipe w =
     (case run_process env cmd w of
        (Interrupted, w1) \<Rightarrow> (Inl KeyboardInterrupt, w1)
      | (Failed msg, w1) \<Rightarrow> (Inl (Exception (OtherException msg)), w1)
      | (Completed rc out err, w1) \<Rightarrow>
          if check \<and> rc \<noteq> 0
          then (Inl (Exception (CalledProcessError cmd rc (if pipe then Some err else None))), w1)
          else (Inr (), w1))"

definition decode :: "bytes \<Rightarrow> exn + string" where
  "decode b = (case b of Utf8 text \<Rightarrow> Inr text | Malformed \<Rightarrow> Inl (Exception UnicodeDecodeError))"

text \<open>Truth values of Python: empty bytes, the empty string and \<^verbatim>\<open>None\<close> are false.\<close>

definition truthy_bytes :: "bytes option \<Rightarrow> bool" where
  "truthy_bytes v = (case v of None \<Rightarrow> False | Some b \<Rightarrow> b \<noteq> Utf8 [])"

definition truthy :: "string option \<Rightarrow> bool" where
  "truthy v = (case v of None \<Rightarrow> False | Some s \<Rightarrow> s \<noteq> [])"

section \<open>The class MACChanger\<close>

text \<open>
  Every method takes the operating system \<open>env\<close>, the value \<open>system\<close> of
  \<^verbatim>\<open>platform.system()\<close> kept in \<^verbatim>\<open>self.system\<close>, and the world, and returns the world it
  leaves. A result \<open>Inl e\<close> is an exception that leaves the method; what a method's own
  \<^verbatim>\<open>except\<close> clauses catch does not leave it.
\<close>

definition get_current_mac ::
  "os \<Rightarrow> string \<Rightarrow> string \<Rightarrow> world \<Rightarrow> (exn + string option) \<times> world" where
  "get_current_mac env system interface w =
     (case check_output env
             (if system = ''Darwin'' then [''ifconfig'', interface]
              else [''ip'', ''link'', ''show'', interface]) w of
        (Inl (Exception (CalledProcessError c rc err)), w1) \<Rightarrow>
          (Inr None,
           emit (Error (''Interface '' @ [CHR 0x27] @ interface @ [CHR 0x27]
                        @ '' not found or no permission.'')) w1)
      | (Inl (Exception e), w1) \<Rightarrow> (Inr None, emit (ErrorExc ''Error getting MAC address: '' e) w1)
      | (Inl e, w1) \<Rightarrow> (Inl e, w1)
      | (Inr result, w1) \<Rightarrow>
          (case decode result of
             Inl (Exception e) \<Rightarrow>
               (Inr None, emit (ErrorExc ''Error getting MAC address: '' e) w1)
           | Inl e \<Rightarrow> (Inl e, w1)
           | Inr text \<Rightarrow>
               (case re_search mac_regex text of
                  Some mac_pattern \<Rightarrow> (Inr (Some mac_pattern), w1)
                | None \<Rightarrow> (Inr None, w1))))"

fun run_all :: "os \<Rightarrow> (string list \<times> bool \<times> bool) list \<Rightarrow> world \<Rightarrow> (exn + unit) \<times> world" where
  "run_all env [] w = (Inr (), w)"
| "run_all env ((cmd, check, pipe) # rest) w =
     (case subprocess_run env cmd check pipe w of
        (Inl e, w1) \<Rightarrow> (Inl e, w1)
      | (Inr u, w1) \<Rightarrow> run_all env rest w1)"

definition change_commands :: "string \<Rightarrow> string \<Rightarrow> string \<Rightarrow> (string list \<times> bool \<times> bool) list" where
  "change_commands system interface new_mac =
     (if system = ''Darwin''
      then [([''sudo'', ''airport'', ''-z''], False, False),
            ([''sudo'', ''ifconfig'', interface, ''ether'', new_mac], True, True)]
      else [([''sudo'', ''ip'', ''link'', ''set'', interface, ''down''], True, True),
            ([''sudo'', ''ip'', ''link'', ''set'', interface, ''address'', new_mac], True, True),
            ([''sudo'', ''ip'', ''link'', ''set'', interface, ''up''], True, True)])"

definition change_mac ::
  "os \<Rightarrow> string \<Rightarrow> string \<Rightarrow> string \<Rightarrow> world \<Rightarrow> (exn + bool) \<times> world" where
  "change_mac env system interface new_mac w =
     (if \<not> validate_mac new_mac
      then (Inr False,
            emit (Error ''Invalid MAC address format. Use format: XX:XX:XX:XX:XX:XX'') w)
      else
        (case run_all env (change_commands system interface new_mac)
                (emit (Info (''Changing MAC address for '' @ interface @ '' to '' @ new_mac)) w) of
           (Inr u, w1) \<Rightarrow> (Inr True, w1)
         | (Inl (Exception (CalledProcessError c rc err)), w1) \<Rightarrow>
             (case (if truthy_bytes err
                    then (case err of Some b \<Rightarrow> decode b | None \<Rightarrow> Inr ''Unknown'')
                    else Inr ''Unknown'') of
                Inl e \<Rightarrow> (Inl e, w1)
              | Inr detail \<Rightarrow>
                  (Inr False,
                   emit (Warning ''Make sure you have sudo privileges.'')
                     (emit (Error (''Failed to change MAC address. Error: '' @ detail)) w1)))
         | (Inl (Exception e), w1) \<Rightarrow> (Inr False, emit (ErrorExc ''Unexpected error: '' e) w1)
         | (Inl e, w1) \<Rightarrow> (Inl e, w1)))"

fun list_loop :: "os \<Rightarrow> string \<Rightarrow> string list \<Rightarrow> world \<Rightarrow> (exn + unit) \<times> world" where
  "list_loop env system [] w = (Inr (), w)"
| "list_loop env system (iface # rest) w =
     (case get_current_mac env system iface w of
        (Inl e, w1) \<Rightarrow> (Inl e, w1)
      | (Inr mac, w1) \<Rightarrow>
          list_loop env system rest
            (emit (IfaceLine iface (if truthy mac then mac else None)) w1))"

text \<open>
  \<^verbatim>\<open>list_interfaces\<close> reads the interface names off the command's output with
  \<^verbatim>\<open>str.strip().split()\<close> on macOS and with \<^verbatim>\<open>re.findall(r'\d+: ([^:]+):', ...)\<close> on Linux;
  the two library computations are the parameters \<open>split_words\<close> and \<open>findall_names\<close>.
\<close>

definition list_interfaces ::
  "os \<Rightarrow> string \<Rightarrow> (string \<Rightarrow> string list) \<Rightarrow> (string \<Rightarrow> string list) \<Rightarrow> world
   \<Rightarrow> (exn + unit) \<times> world" where
  "list_interfaces env system split_words findall_names w =
     (case (case check_output env
                   (if system = ''Darwin'' then [''ifconfig'', ''-l''] else [''ip'', ''link'', ''show''])
                   (emit (Info ''Available network interfaces:'') w) of
              (Inl e, w1) \<Rightarrow> (Inl e, w1)
            | (Inr result, w1) \<Rightarrow>
                (case decode result of
                   Inl e \<Rightarrow> (Inl e, w1)
                 | Inr text \<Rightarrow>
                     list_loop env system
                       (if system = ''Darwin'' then split_words text else findall_names text) w1)) of
        (Inl (Exception e), w2) \<Rightarrow> (Inr (), emit (ErrorExc ''Error listing interfaces: '' e) w2)
      | (r, w2) \<Rightarrow> (r, w2))"

definition verify_change ::
  "os \<Rightarrow> string \<Rightarrow> string \<Rightarrow> string \<Rightarrow> world \<Rightarrow> (exn + bool) \<times> world" where
  "verify_change env system interface expected_mac w =
     (case get_current_mac env system interface w of
        (Inl e, w1) \<Rightarrow> (Inl e, w1)
      | (Inr current_mac, w1) \<Rightarrow>
          (case current_mac of
             Some cur \<Rightarrow>
               if truthy current_mac \<and> lower cur = lower expected_mac
               then (Inr True, emit (Success (''MAC address successfully changed to '' @ cur)) w1)
               else (Inr False, emit (Error ''MAC address change verification failed.'') w1)
           | None \<Rightarrow> (Inr False, emit (Error ''MAC address change verification failed.'') w1)))"

section \<open>The command line\<close>

text \<open>
  \<^verbatim>\<open>main\<close> from the point where \<^verbatim>\<open>parser.parse_args()\<close> has returned the arguments.
  The fields of \<open>args\<close> are the attributes of the parsed arguments, with the prefix
  \<open>arg_\<close>. \<^verbatim>\<open>sys.exit(n)\<close> raises \<^verbatim>\<open>SystemExit\<close>, which no \<^verbatim>\<open>except Exception\<close> catches.
\<close>

record args =
  arg_interface :: "string option"
  arg_mac :: "string option"
  arg_random :: bool
  arg_list :: bool
  arg_show :: bool

definition change_and_verify ::
  "os \<Rightarrow> string \<Rightarrow> string \<Rightarrow> string \<Rightarrow> world \<Rightarrow> (exn + unit) \<times> world" where
  "change_and_verify env system iface new_mac w =
     (case change_mac env system iface new_mac w of
        (Inl e, w1) \<Rightarrow> (Inl e, w1)
      | (Inr changed, w1) \<Rightarrow>
          if changed
          then (case verify_change env system iface new_mac w1 of
                  (Inl e, w2) \<Rightarrow> (Inl e, w2)
                | (Inr verified, w2) \<Rightarrow> (Inr (), w2))
          else (Inl (SystemExit 1), w1))"

definition main ::
  "os \<Rightarrow> string \<Rightarrow> (nat \<Rightarrow> int) \<Rightarrow> (string \<Rightarrow> string list) \<Rightarrow> (string \<Rightarrow> string list)
   \<Rightarrow> args \<Rightarrow> world \<Rightarrow> (exn + unit) \<times> world" where
  "main env system randint split_words findall_names a w =
     (if system \<notin> set [''Linux'', ''Darwin'']
      then (Inl (SystemExit 1), emit (Error ''This tool currently supports Linux and macOS only.'') w)
      else if arg_list a
      then (case list_interfaces env system split_words findall_names (emit Banner w) of
              (Inl e, w1) \<Rightarrow> (Inl e, w1)
            | (Inr u, w1) \<Rightarrow> (Inl (SystemExit 0), w1))
      else
        (case arg_interface a of
           None \<Rightarrow> (Inl (SystemExit 1), emit Help (emit Banner w))
         | Some iface \<Rightarrow>
             if iface = [] then (Inl (SystemExit 1), emit Help (emit Banner w))
             else if arg_show a
             then (case get_current_mac env system iface (emit Banner w) of
                     (Inl e, w1) \<Rightarrow> (Inl e, w1)
                   | (Inr current_mac, w1) \<Rightarrow>
                       (case current_mac of
                          Some cur \<Rightarrow>
                            if truthy current_mac
                            then (Inl (SystemExit 0),
                                  emit (Info (''Current MAC address for '' @ iface @ '': '' @ cur)) w1)
                            else (Inl (SystemExit 0), w1)
                        | None \<Rightarrow> (Inl (SystemExit 0), w1)))
             else
               (case get_current_mac env system iface (emit Banner w) of
                  (Inl e, w1) \<Rightarrow> (Inl e, w1)
                | (Inr old_mac, w1) \<Rightarrow>
                    (case old_mac of
                       None \<Rightarrow> (Inl (SystemExit 1), w1)
                     | Some old \<Rightarrow>
                         if \<not> truthy old_mac then (Inl (SystemExit 1), w1)
                         else if arg_random a
                         then change_and_verify env system iface (generate_random_mac randint)
                                (emit (Info (''Generated random MAC: '' @ generate_random_mac randint))
                                   (emit (Info (''Current MAC address: '' @ old)) w1))
                         else if truthy (arg_mac a)
                         then (case arg_mac a of
                                 Some new_mac \<Rightarrow>
                                   change_and_verify env system iface new_mac
                                     (emit (Info (''Current MAC address: '' @ old)) w1)
                               | None \<Rightarrow> (Inl (SystemExit 1), w1))
                         else (Inl (SystemExit 1),
                               emit (Error ''Please specify either -m/--mac or -r/--random'')
                                 (emit (Info (''Current MAC address: '' @ old)) w1))))))"

text \<open>
  The script's entry: \<^verbatim>\<open>main()\<close> under its two handlers. The result is the exit status
  of the process: 0 when \<^verbatim>\<open>main\<close> returns, the argument of \<^verbatim>\<open>sys.exit\<close> otherwise.
\<close>

definition script ::
  "os \<Rightarrow> string \<Rightarrow> (nat \<Rightarrow> int) \<Rightarrow> (string \<Rightarrow> string list) \<Rightarrow> (string \<Rightarrow> string list)
   \<Rightarrow> args \<Rightarrow> world \<Rightarrow> int \<times> world" where
  "script env system randint split_words findall_names a w =
     (case main env system randint split_words findall_names a w of
        (Inr u, w1) \<Rightarrow> (0, w1)
      | (Inl KeyboardInterrupt, w1) \<Rightarrow> (0, emit Cancelled w1)
      | (Inl (Exception e), w1) \<Rightarrow> (1, emit (ErrorExc ''Unexpected error: '' e) w1)
      | (Inl (SystemExit code), w1) \<Rightarrow> (code, w1))"

section \<open>The address format in the specification's words\<close>

text \<open>
  The specification speaks of six 2-digit hexadecimal groups separated by \<^verbatim>\<open>:\<close> or
  \<^verbatim>\<open>-\<close>. These definitions follow its words and not the program: a text is cut into
  groups at every separator, and it is an address when there are six groups of two
  hexadecimal digits each. They are what the program's functions are compared with.
\<close>

definition is_hex_digit :: "char \<Rightarrow> bool" where
  "is_hex_digit c = (c \<in> set ''0123456789abcdefABCDEF'')"

definition is_lower_hex_digit :: "char \<Rightarrow> bool" where
  "is_lower_hex_digit c = (c \<in> set ''0123456789abcdef'')"

definition is_separator :: "char \<Rightarrow> bool" where
  "is_separator c = (c = CHR '':'' \<or> c = CHR ''-'')"

fun split_groups :: "string \<Rightarrow> string list" where
  "split_groups [] = [[]]"
| "split_groups (c # cs) =
     (if is_separator c then [] # split_groups cs
      else (c # hd (split_groups cs)) # tl (split_groups cs))"

definition six_hex_groups :: "string \<Rightarrow> bool" where
  "six_hex_groups t =
     (length (split_groups t) = 6
      \<and> list_all (\<lambda>g. length g = 2 \<and> list_all is_hex_digit g) (split_groups t))"

text \<open>
  An occurrence of an address in a text at index \<open>k\<close>: the text is its first \<open>k\<close>
  characters, then the address \<open>m\<close>, then a rest. An occurrence is leftmost when no
  occurrence starts before it.
\<close>

definition occurs_at :: "string \<Rightarrow> nat \<Rightarrow> string \<Rightarrow> bool" where
  "occurs_at text k m = (\<exists>post. text = take k text @ m @ post \<and> k \<le> length text \<and> six_hex_groups m)"

text \<open>Flipping the case of the hexadecimal letters of a text, and of no other character.\<close>

definition flip_hex_case_char :: "char \<Rightarrow> char" where
  "flip_hex_case_char c =
     (case map_of (zip ''abcdefABCDEF'' ''ABCDEFabcdef'') c of Some d \<Rightarrow> d | None \<Rightarrow> c)"

definition flip_hex_case :: "string \<Rightarrow> string" where
  "flip_hex_case t = map flip_hex_case_char t"

text \<open>
  The value of a hexadecimal digit and of a text of hexadecimal digits, to read the
  first octet of an address off its text.
\<close>

definition hex_digit_value :: "char \<Rightarrow> nat" where
  "hex_digit_value c =
     (let n = (of_char c :: nat)
      in if 48 \<le> n \<and> n \<le> 57 then n - 48
         else if 97 \<le> n \<and> n \<le> 102 then n - 87
         else n - 55)"

definition hex_value :: "string \<Rightarrow> nat" where
  "hex_value t = foldl (\<lambda>v c. 16 * v + hex_digit_value c) 0 t"

section \<open>Auxiliary notions for the proofs\<close>

text \<open>
  A pattern without anchors that is built from bracket expressions, concatenation,
  counted repetition and groups matches exactly the texts that begin with one character
  of each of its classes in turn.
\<close>

primrec classes_of :: "regex \<Rightarrow> (char \<Rightarrow> bool) list" where
  "classes_of (Class items) = [in_class items]"
| "classes_of (Seq r1 r2) = classes_of r1 @ classes_of r2"
| "classes_of (Rep n r) = concat (replicate n (classes_of r))"
| "classes_of (Group r) = classes_of r"
| "classes_of Bol = []"
| "classes_of Eol = []"

primrec anchor_free :: "regex \<Rightarrow> bool" where
  "anchor_free (Class items) = True"
| "anchor_free (Seq r1 r2) = (anchor_free r1 \<and> anchor_free r2)"
| "anchor_free (Rep n r) = anchor_free r"
| "anchor_free (Group r) = anchor_free r"
| "anchor_free Bol = False"
| "anchor_free Eol = False"

fun fits :: "(char \<Rightarrow> bool) list \<Rightarrow> string \<Rightarrow> bool" where
  "fits [] s = True"
| "fits (p # ps) [] = False"
| "fits (p # ps) (c # cs) = (p c \<and> fits ps cs)"

definition mac_shape :: "(char \<Rightarrow> bool) list" where
  "mac_shape =
     [is_hex_digit, is_hex_digit, is_separator, is_hex_digit, is_hex_digit, is_separator,
      is_hex_digit, is_hex_digit, is_separator, is_hex_digit, is_hex_digit, is_separator,
      is_hex_digit, is_hex_digit, is_separator, is_hex_digit, is_hex_digit]"

section \<open>Character classes\<close>

lemma char_eq_code: "(c = d) = ((of_char c :: nat) = of_char d)"
  by simp

lemma is_hex_digit_code:
  "is_hex_digit c =
     ((48 \<le> (of_char c :: nat) \<and> (of_char c :: nat) \<le> 57)
      \<or> (65 \<le> (of_char c :: nat) \<and> (of_char c :: nat) \<le> 70)
      \<or> (97 \<le> (of_char c :: nat) \<and> (of_char c :: nat) \<le> 102))"
  unfolding is_hex_digit_def list.set insert_iff empty_iff char_eq_code [of c]
  by simp presburger

lemma in_hex_class:
  "in_class [Range (CHR ''0'') (CHR ''9''), Range (CHR ''A'') (CHR ''F''),
             Range (CHR ''a'') (CHR ''f'')] = is_hex_digit"
  by (rule ext) (simp add: in_class_def is_hex_digit_code)

lemma in_sep_class: "in_class [Lit (CHR '':''), Lit (CHR ''-'')] = is_separator"
  by (rule ext) (auto simp: in_class_def is_separator_def)

lemma hex_digit_not_separator: "is_hex_digit c \<Longrightarrow> \<not> is_separator c"
  by (auto simp: is_hex_digit_def is_separator_def)

section \<open>What the matcher accepts\<close>

lemma fits_append: "fits (ps @ qs) s = (fits ps s \<and> fits qs (drop (length ps) s))"
  by (induction ps s rule: fits.induct) auto

lemma fits_length: "fits ps s \<Longrightarrow> length ps \<le> length s"
  by (induction ps s rule: fits.induct) auto

lemma rmatch_anchor_free:
  "anchor_free r \<Longrightarrow>
   rmatch r p =
     (if fits (classes_of r) (snd p)
      then Some (fst p + length (classes_of r), drop (length (classes_of r)) (snd p))
      else None)"
proof (induction r p rule: rmatch.induct)
  case (3 r1 r2 p)
  then show ?case
    by (auto simp: fits_append add.assoc add.commute)
next
  case (5 n r p)
  then show ?case
    by (auto simp: fits_append add.assoc add.commute)
qed auto

lemma search_from_None:
  "search_from r i s = None \<longleftrightarrow> (\<forall>k \<le> length s. rmatch r (i + k, drop k s) = None)"
proof (induction s arbitrary: i)
  case Nil
  then show ?case by (auto split: option.splits)
next
  case (Cons c cs)
  show ?case
  proof (cases "rmatch r (i, c # cs)")
    case None
    have "(\<forall>k \<le> length (c # cs). rmatch r (i + k, drop k (c # cs)) = None)
          \<longleftrightarrow> (\<forall>k \<le> length cs. rmatch r (Suc i + k, drop k cs) = None)"
      (is "?L \<longleftrightarrow> ?R")
    proof
      assume l: ?L
      show ?R
      proof (intro allI impI)
        fix k assume "k \<le> length cs"
        with l have "rmatch r (i + Suc k, drop (Suc k) (c # cs)) = None" by force
        then show "rmatch r (Suc i + k, drop k cs) = None" by simp
      qed
    next
      assume r: ?R
      show ?L
      proof (intro allI impI)
        fix k assume k: "k \<le> length (c # cs)"
        show "rmatch r (i + k, drop k (c # cs)) = None"
        proof (cases k)
          case 0
          with None show ?thesis by simp
        next
          case (Suc j)
          with k r have "rmatch r (Suc i + j, drop j cs) = None" by simp
          with Suc show ?thesis by simp
        qed
      qed
    qed
    with None Cons.IH [of "Suc i"] show ?thesis by simp
  next
    case (Some q)
    have "(0::nat) \<le> length (c # cs)" by simp
    moreover from Some have "rmatch r (i + 0, drop 0 (c # cs)) \<noteq> None" by simp
    ultimately have "\<not> (\<forall>k \<le> length (c # cs). rmatch r (i + k, drop k (c # cs)) = None)"
      by (rule_tac notI) (drule_tac x = 0 in spec, simp)
    moreover from Some have "search_from r i (c # cs) \<noteq> None"
      by (cases q) simp
    ultimately show ?thesis by (simp only: simp_thms)
  qed
qed

lemma classes_of_mac_regex: "classes_of mac_regex = mac_shape"
  by (simp add: mac_regex_def hex_class_def sep_class_def mac_shape_def in_hex_class in_sep_class
      eval_nat_numeral)

lemma anchor_free_mac_regex: "anchor_free mac_regex"
  by (simp add: mac_regex_def hex_class_def sep_class_def)

lemma length_mac_shape: "length mac_shape = 17"
  by (simp add: mac_shape_def)

lemma rmatch_mac_regex:
  "rmatch mac_regex (i, s) = (if fits mac_shape s then Some (i + 17, drop 17 s) else None)"
  using rmatch_anchor_free [OF anchor_free_mac_regex, of "(i, s)"]
  by (simp add: classes_of_mac_regex length_mac_shape)

lemma validate_mac_fits:
  "validate_mac t = (fits mac_shape t \<and> (drop 17 t = [] \<or> drop 17 t = [newline]))"
  by (simp add: validate_mac_def re_match_def validate_regex_def rmatch_mac_regex)

section \<open>The specification's address format and the pattern\<close>

lemma fits_Cons: "fits (p # ps) s = (\<exists>c cs. s = c # cs \<and> p c \<and> fits ps cs)"
  by (cases s) auto

lemma fits_Nil_iff: "fits [] s = True"
  by simp

lemma split_groups_not_Nil: "split_groups t \<noteq> []"
  by (cases t) auto

lemma split_groups_Cons_Cons:
  "split_groups t = (a # g) # gs \<Longrightarrow>
   \<exists>t'. t = a # t' \<and> \<not> is_separator a \<and> split_groups t' = g # gs"
proof (cases t)
  case Nil
  assume "split_groups t = (a # g) # gs"
  with Nil show ?thesis by simp
next
  case (Cons c cs)
  assume eq: "split_groups t = (a # g) # gs"
  have ne: "split_groups cs \<noteq> []" by (rule split_groups_not_Nil)
  from eq Cons have ns: "\<not> is_separator c" by (auto split: if_splits)
  with eq Cons have "c = a" "hd (split_groups cs) = g" "tl (split_groups cs) = gs" by auto
  with ne have "split_groups cs = g # gs" by (cases "split_groups cs") auto
  with Cons ns \<open>c = a\<close> show ?thesis by simp
qed

lemma split_groups_Nil_Cons:
  "split_groups t = [] # g # gs \<Longrightarrow>
   \<exists>c t'. t = c # t' \<and> is_separator c \<and> split_groups t' = g # gs"
  by (cases t) (auto split: if_splits)

lemma split_groups_single_Nil: "split_groups t = [[]] \<Longrightarrow> t = []"
proof (cases t)
  case Nil
  then show ?thesis by simp
next
  case (Cons c cs)
  assume "split_groups t = [[]]"
  with Cons split_groups_not_Nil [of cs] show ?thesis by (auto split: if_splits)
qed

lemma shape_imp_six_hex_groups:
  assumes "fits mac_shape t" "length t = 17"
  shows "six_hex_groups t"
proof -
  from assms obtain a1 a2 s1 b1 b2 s2 c1 c2 s3 d1 d2 s4 e1 e2 s5 f1 f2 where
    t: "t = [a1, a2, s1, b1, b2, s2, c1, c2, s3, d1, d2, s4, e1, e2, s5, f1, f2]"
    and h: "is_hex_digit a1" "is_hex_digit a2" "is_hex_digit b1" "is_hex_digit b2"
      "is_hex_digit c1" "is_hex_digit c2" "is_hex_digit d1" "is_hex_digit d2"
      "is_hex_digit e1" "is_hex_digit e2" "is_hex_digit f1" "is_hex_digit f2"
    and s: "is_separator s1" "is_separator s2" "is_separator s3" "is_separator s4" "is_separator s5"
    by (auto simp: mac_shape_def fits_Cons)
  from h s show ?thesis
    unfolding t six_hex_groups_def by (simp add: hex_digit_not_separator)
qed

lemma six_hex_groups_imp_shape:
  assumes "six_hex_groups t"
  shows "fits mac_shape t \<and> length t = 17"
proof -
  from assms have l: "length (split_groups t) = 6"
    and g: "list_all (\<lambda>g. length g = 2 \<and> list_all is_hex_digit g) (split_groups t)"
    by (simp_all add: six_hex_groups_def)
  from l obtain g1 g2 g3 g4 g5 g6 where sp: "split_groups t = [g1, g2, g3, g4, g5, g6]"
    by (auto simp: eval_nat_numeral length_Suc_conv)
  from g sp obtain a1 a2 b1 b2 c1 c2 d1 d2 e1 e2 f1 f2 where
    gs: "g1 = [a1, a2]" "g2 = [b1, b2]" "g3 = [c1, c2]" "g4 = [d1, d2]" "g5 = [e1, e2]" "g6 = [f1, f2]"
    by (auto simp: eval_nat_numeral length_Suc_conv)
  from g sp gs have h: "is_hex_digit a1" "is_hex_digit a2" "is_hex_digit b1" "is_hex_digit b2"
      "is_hex_digit c1" "is_hex_digit c2" "is_hex_digit d1" "is_hex_digit d2"
      "is_hex_digit e1" "is_hex_digit e2" "is_hex_digit f1" "is_hex_digit f2"
    by simp_all
  from sp gs have "split_groups t = [[a1, a2], [b1, b2], [c1, c2], [d1, d2], [e1, e2], [f1, f2]]"
    by simp
  then obtain s1 s2 s3 s4 s5 where
    t: "t = [a1, a2, s1, b1, b2, s2, c1, c2, s3, d1, d2, s4, e1, e2, s5, f1, f2]"
    and s: "is_separator s1" "is_separator s2" "is_separator s3" "is_separator s4" "is_separator s5"
    by (auto dest!: split_groups_Cons_Cons split_groups_Nil_Cons split_groups_single_Nil)
  from h s show ?thesis unfolding t by (simp add: mac_shape_def)
qed

lemma six_hex_groups_shape: "six_hex_groups t = (fits mac_shape t \<and> length t = 17)"
  using shape_imp_six_hex_groups six_hex_groups_imp_shape by blast

lemma fits_take: "fits ps s \<Longrightarrow> fits ps (take (length ps) s)"
  by (induction ps s rule: fits.induct) auto

lemma fits_prefix: "fits ps u \<Longrightarrow> fits ps (u @ v)"
  by (induction ps u rule: fits.induct) auto

lemma fits_exact_append: "length u = length ps \<Longrightarrow> fits ps (u @ v) = fits ps u"
  by (induction ps u rule: fits.induct) auto

lemma fits_map:
  "(\<And>p c. p \<in> set ps \<Longrightarrow> p (f c) = p c) \<Longrightarrow> fits ps (map f s) = fits ps s"
  by (induction ps s rule: fits.induct) auto

lemma validate_mac_append:
  assumes "six_hex_groups u"
  shows "validate_mac (u @ ext) = (ext = [] \<or> ext = [newline])"
proof -
  from assms have f: "fits mac_shape u" and l: "length u = 17"
    by (simp_all add: six_hex_groups_shape)
  from l have "fits mac_shape (u @ ext) = fits mac_shape u"
    by (intro fits_exact_append) (simp add: length_mac_shape)
  with f l show ?thesis by (simp add: validate_mac_fits)
qed

lemma validate_mac_iff:
  "validate_mac t = (six_hex_groups t \<or> (\<exists>u. t = u @ [newline] \<and> six_hex_groups u))"
proof
  assume v: "validate_mac t"
  then have f: "fits mac_shape t" and d: "drop 17 t = [] \<or> drop 17 t = [newline]"
    by (simp_all add: validate_mac_fits)
  from f have l: "17 \<le> length t" using fits_length [of mac_shape t] by (simp add: length_mac_shape)
  from f have ft: "fits mac_shape (take 17 t)" using fits_take [of mac_shape t]
    by (simp add: length_mac_shape)
  from l ft have six: "six_hex_groups (take 17 t)" by (simp add: six_hex_groups_shape)
  from d show "six_hex_groups t \<or> (\<exists>u. t = u @ [newline] \<and> six_hex_groups u)"
  proof
    assume "drop 17 t = []"
    with l six show ?thesis by simp
  next
    assume "drop 17 t = [newline]"
    then have "t = take 17 t @ [newline]" by (metis append_take_drop_id)
    with six show ?thesis by blast
  qed
next
  assume "six_hex_groups t \<or> (\<exists>u. t = u @ [newline] \<and> six_hex_groups u)"
  then show "validate_mac t"
  proof
    assume "six_hex_groups t"
    from validate_mac_append [OF this, of "[]"] show ?thesis by simp
  next
    assume "\<exists>u. t = u @ [newline] \<and> six_hex_groups u"
    then obtain u where "t = u @ [newline]" "six_hex_groups u" by blast
    with validate_mac_append [of u "[newline]"] show ?thesis by simp
  qed
qed

lemma newline_not_hex: "\<not> is_hex_digit newline"
  by (simp add: is_hex_digit_def newline_def)

lemma newline_not_separator: "\<not> is_separator newline"
  by (simp add: is_separator_def newline_def)

lemma is_hex_digit_flip: "is_hex_digit (flip_hex_case_char c) = is_hex_digit c"
  by (auto simp: flip_hex_case_char_def is_hex_digit_def)

lemma is_separator_flip: "is_separator (flip_hex_case_char c) = is_separator c"
  by (auto simp: flip_hex_case_char_def is_separator_def)

lemma flip_newline: "(flip_hex_case_char c = newline) = (c = newline)"
  by (auto simp: flip_hex_case_char_def newline_def)

lemma fits_flip: "fits mac_shape (flip_hex_case t) = fits mac_shape t"
  unfolding flip_hex_case_def
  by (rule fits_map) (auto simp: mac_shape_def is_hex_digit_flip is_separator_flip)

lemma example_lower: "six_hex_groups ''aa:bb:cc:dd:ee:ff''"
  by (simp add: six_hex_groups_def is_hex_digit_def is_separator_def)

lemma example_upper: "six_hex_groups ''AA:BB:CC:DD:EE:FF''"
  by (simp add: six_hex_groups_def is_hex_digit_def is_separator_def)

lemma search_from_Some:
  "search_from r i s = Some m \<Longrightarrow>
   \<exists>k j rest. k \<le> length s \<and> rmatch r (i + k, drop k s) = Some (j, rest)
     \<and> m = take (j - (i + k)) (drop k s)
     \<and> (\<forall>k' < k. rmatch r (i + k', drop k' s) = None)"
proof (induction s arbitrary: i)
  case Nil
  then obtain j rest where "rmatch r (i, []) = Some (j, rest)" "m = []"
    by (auto split: option.splits)
  then have "0 \<le> length ([] :: string) \<and> rmatch r (i + 0, drop 0 []) = Some (j, rest)
     \<and> m = take (j - (i + 0)) (drop 0 []) \<and> (\<forall>k' < 0. rmatch r (i + k', drop k' []) = None)"
    by simp
  then show ?case by blast
next
  case (Cons c cs)
  show ?case
  proof (cases "rmatch r (i, c # cs)")
    case None
    with Cons.prems have "search_from r (Suc i) cs = Some m" by simp
    from Cons.IH [OF this] obtain k j rest where
      k: "k \<le> length cs" and r: "rmatch r (Suc i + k, drop k cs) = Some (j, rest)"
      and m: "m = take (j - (Suc i + k)) (drop k cs)"
      and e: "\<forall>k' < k. rmatch r (Suc i + k', drop k' cs) = None"
      by blast
    have e': "\<forall>k' < Suc k. rmatch r (i + k', drop k' (c # cs)) = None"
    proof (intro allI impI)
      fix k' assume "k' < Suc k"
      show "rmatch r (i + k', drop k' (c # cs)) = None"
      proof (cases k')
        case 0
        with None show ?thesis by simp
      next
        case (Suc n)
        with \<open>k' < Suc k\<close> e have "rmatch r (Suc i + n, drop n cs) = None" by simp
        with Suc show ?thesis by simp
      qed
    qed
    from k r m have "Suc k \<le> length (c # cs) \<and> rmatch r (i + Suc k, drop (Suc k) (c # cs)) = Some (j, rest)
       \<and> m = take (j - (i + Suc k)) (drop (Suc k) (c # cs))"
      by simp
    with e' show ?thesis by blast
  next
    case (Some q)
    obtain j rest where q: "q = (j, rest)" by (cases q)
    with Some Cons.prems have "m = take (j - i) (c # cs)" by simp
    with Some q have "0 \<le> length (c # cs) \<and> rmatch r (i + 0, drop 0 (c # cs)) = Some (j, rest)
       \<and> m = take (j - (i + 0)) (drop 0 (c # cs))
       \<and> (\<forall>k' < 0. rmatch r (i + k', drop k' (c # cs)) = None)"
      by simp
    then show ?thesis by blast
  qed
qed

lemma occurs_at_iff:
  "occurs_at text k m = (fits mac_shape (drop k text) \<and> m = take 17 (drop k text))"
proof
  assume "occurs_at text k m"
  then obtain post where t: "text = take k text @ m @ post" and k: "k \<le> length text"
    and six: "six_hex_groups m"
    by (auto simp: occurs_at_def)
  from t have "take k text @ drop k text = take k text @ m @ post" by simp
  then have d: "drop k text = m @ post" by (simp only: same_append_eq)
  from six have f: "fits mac_shape m" and l: "length m = 17" by (simp_all add: six_hex_groups_shape)
  from f l show "fits mac_shape (drop k text) \<and> m = take 17 (drop k text)"
    by (simp add: d fits_prefix)
next
  assume a: "fits mac_shape (drop k text) \<and> m = take 17 (drop k text)"
  then have f: "fits mac_shape (drop k text)" and m: "m = take 17 (drop k text)" by simp_all
  from fits_length [OF f] have l: "17 \<le> length text - k" by (simp add: length_mac_shape)
  then have k: "k \<le> length text" by simp
  from fits_take [OF f] have "fits mac_shape m" by (simp add: m length_mac_shape)
  moreover from l have "length m = 17" by (simp add: m)
  ultimately have six: "six_hex_groups m" by (simp add: six_hex_groups_shape)
  have "take 17 (drop k text) @ drop 17 (drop k text) = drop k text"
    by (rule append_take_drop_id)
  then have "take k text @ m @ drop 17 (drop k text) = take k text @ drop k text"
    by (simp only: m)
  then have "text = take k text @ m @ drop 17 (drop k text)"
    by (simp only: append_take_drop_id)
  with k six show "occurs_at text k m" unfolding occurs_at_def by blast
qed

lemma re_search_mac_None:
  "(re_search mac_regex text = None) = (\<forall>k m. \<not> occurs_at text k m)"
proof -
  have a: "(\<forall>k \<le> length text. \<not> fits mac_shape (drop k text)) = (\<forall>k. \<not> fits mac_shape (drop k text))"
  proof
    assume a: "\<forall>k \<le> length text. \<not> fits mac_shape (drop k text)"
    show "\<forall>k. \<not> fits mac_shape (drop k text)"
    proof
      fix k
      show "\<not> fits mac_shape (drop k text)"
      proof (cases "k \<le> length text")
        case True
        with a show ?thesis by simp
      next
        case False
        then show ?thesis by (simp add: mac_shape_def)
      qed
    qed
  qed simp
  have "(re_search mac_regex text = None) = (\<forall>k \<le> length text. \<not> fits mac_shape (drop k text))"
    by (auto simp: re_search_def search_from_None rmatch_mac_regex)
  also note a
  also have "(\<forall>k. \<not> fits mac_shape (drop k text)) = (\<forall>k m. \<not> occurs_at text k m)"
    by (simp add: occurs_at_iff)
  finally show ?thesis .
qed

lemma re_search_mac_Some:
  assumes "re_search mac_regex text = Some m"
  shows "\<exists>k. occurs_at text k m \<and> (\<forall>k' m'. occurs_at text k' m' \<longrightarrow> k \<le> k')"
proof -
  from assms have "search_from mac_regex 0 text = Some m" by (simp add: re_search_def)
  from search_from_Some [OF this] obtain k j rest where
    r: "rmatch mac_regex (k, drop k text) = Some (j, rest)"
    and m: "m = take (j - k) (drop k text)"
    and e: "\<forall>k' < k. rmatch mac_regex (k', drop k' text) = None"
    by auto
  from r have f: "fits mac_shape (drop k text)" and j: "j = k + 17"
    by (auto simp: rmatch_mac_regex split: if_splits)
  from f m j have o: "occurs_at text k m" by (simp add: occurs_at_iff)
  have "\<forall>k' m'. occurs_at text k' m' \<longrightarrow> k \<le> k'"
  proof (intro allI impI)
    fix k' m' assume "occurs_at text k' m'"
    then have "fits mac_shape (drop k' text)" by (simp add: occurs_at_iff)
    then have "rmatch mac_regex (k', drop k' text) \<noteq> None" by (simp add: rmatch_mac_regex)
    with e show "k \<le> k'" by (metis not_le_imp_less)
  qed
  with o show ?thesis by blast
qed

lemma occurs_at_not_empty: "occurs_at text k m \<Longrightarrow> m \<noteq> []"
  by (auto simp: occurs_at_def six_hex_groups_shape)

lemma get_current_mac_output:
  assumes "env (executed w)
             (if system = ''Darwin'' then [''ifconfig'', interface]
              else [''ip'', ''link'', ''show'', interface]) = Completed 0 (Utf8 text) err"
  shows "fst (get_current_mac env system interface w) = Inr (re_search mac_regex text)"
  using assms
  by (cases "re_search mac_regex text")
     (simp_all add: get_current_mac_def check_output_def run_process_def decode_def)

lemma get_current_mac_Some:
  assumes "fst (get_current_mac env system interface w) = Inr (Some cur)"
  shows "\<exists>text. re_search mac_regex text = Some cur"
  using assms
  by (auto simp: get_current_mac_def check_output_def run_process_def decode_def
      split: prod.splits sum.splits exn.splits py_exception.splits option.splits
        proc_result.splits bytes.splits if_splits)

lemma hex_digits_small: "n < 16 \<Longrightarrow> hex_digits n = [hex_char n]"
  by (subst hex_digits.simps) simp

lemma hex_digits_two:
  assumes "16 \<le> n" "n < 256"
  shows "hex_digits n = [hex_char (n div 16), hex_char (n mod 16)]"
proof -
  from assms have "n div 16 < 16" by simp
  then have "hex_digits (n div 16) = [hex_char (n div 16)]" by (rule hex_digits_small)
  with assms show ?thesis by (subst hex_digits.simps) simp
qed

lemma hex_char_0: "hex_char 0 = CHR ''0''"
  by (simp add: hex_char_def)

lemma format_02x_octet:
  assumes "0 \<le> d" "d \<le> 255"
  shows "format_02x d = [hex_char (nat d div 16), hex_char (nat d mod 16)]"
proof (cases "nat d < 16")
  case True
  then have "hex_digits (nat d) = [hex_char (nat d)]" by (rule hex_digits_small)
  with True assms show ?thesis by (simp add: format_02x_def hex_char_0)
next
  case False
  with assms have "hex_digits (nat d) = [hex_char (nat d div 16), hex_char (nat d mod 16)]"
    by (intro hex_digits_two) auto
  with assms show ?thesis by (simp add: format_02x_def)
qed

lemma below_16_cases:
  "k < (16::nat) \<Longrightarrow>
   k = 0 \<or> k = 1 \<or> k = 2 \<or> k = 3 \<or> k = 4 \<or> k = 5 \<or> k = 6 \<or> k = 7 \<or> k = 8 \<or> k = 9
   \<or> k = 10 \<or> k = 11 \<or> k = 12 \<or> k = 13 \<or> k = 14 \<or> k = 15"
  by arith

lemma hex_char_lower: "is_lower_hex_digit (hex_char k)"
  unfolding is_lower_hex_digit_def hex_char_def
  by (rule nth_mem) simp

lemma lower_hex_is_hex: "is_lower_hex_digit c \<Longrightarrow> is_hex_digit c"
  by (auto simp: is_lower_hex_digit_def is_hex_digit_def)

lemma hex_digit_value_hex_char: "k < 16 \<Longrightarrow> hex_digit_value (hex_char k) = k"
  using below_16_cases [of k]
  by (auto simp: hex_digit_value_def hex_char_def)

lemma hex_value_pair:
  "a < 16 \<Longrightarrow> b < 16 \<Longrightarrow> hex_value [hex_char a, hex_char b] = 16 * a + b"
  by (simp add: hex_value_def hex_digit_value_hex_char)

lemma first_octet_range:
  fixes x :: int
  assumes "0 \<le> x" "x \<le> 255"
  shows "0 \<le> (x AND 0xfe) OR 0x02 \<and> (x AND 0xfe) OR 0x02 \<le> 255"
proof -
  have a: "0 \<le> x AND 0xfe" using assms by simp
  have "x AND 0xfe \<le> 0xfe" by (rule AND_upper2) simp
  then have b: "x AND 0xfe < 2 ^ 8" by simp
  have "(x AND 0xfe) OR 0x02 < 2 ^ 8"
    using a b by (intro OR_upper) simp_all
  moreover have "0 \<le> (x AND 0xfe) OR 0x02" using a by simp
  ultimately show ?thesis by simp
qed

lemma first_octet_bits:
  fixes x :: int
  shows "\<not> bit ((x AND 0xfe) OR 0x02) 0 \<and> bit ((x AND 0xfe) OR 0x02) 1"
proof
  show "\<not> bit ((x AND 0xfe) OR 0x02) 0"
    by (simp add: bit_or_iff bit_and_iff)
  have "bit (2::int) 1" by (simp add: bit_iff_odd)
  then show "bit ((x AND 0xfe) OR 0x02) 1"
    by (simp only: bit_or_iff simp_thms)
qed

lemma upt_6: "[0..<6] = [0, 1, 2, 3, 4, 5]"
  by (simp add: upt_rec)

lemma generate_random_mac_text:
  assumes "\<forall>k<6. 0 \<le> randint k \<and> randint k \<le> 255"
  shows "generate_random_mac randint =
     [hex_char (nat ((randint 0 AND 0xfe) OR 0x02) div 16),
      hex_char (nat ((randint 0 AND 0xfe) OR 0x02) mod 16), CHR '':'',
      hex_char (nat (randint 1) div 16), hex_char (nat (randint 1) mod 16), CHR '':'',
      hex_char (nat (randint 2) div 16), hex_char (nat (randint 2) mod 16), CHR '':'',
      hex_char (nat (randint 3) div 16), hex_char (nat (randint 3) mod 16), CHR '':'',
      hex_char (nat (randint 4) div 16), hex_char (nat (randint 4) mod 16), CHR '':'',
      hex_char (nat (randint 5) div 16), hex_char (nat (randint 5) mod 16)]"
proof -
  from assms have r: "0 \<le> randint 0" "randint 0 \<le> 255" "0 \<le> randint 1" "randint 1 \<le> 255"
    "0 \<le> randint 2" "randint 2 \<le> 255" "0 \<le> randint 3" "randint 3 \<le> 255"
    "0 \<le> randint 4" "randint 4 \<le> 255" "0 \<le> randint 5" "randint 5 \<le> 255"
    by simp_all
  from first_octet_range [OF r(1,2)]
  have f0: "format_02x ((randint 0 AND 0xfe) OR 0x02) =
     [hex_char (nat ((randint 0 AND 0xfe) OR 0x02) div 16),
      hex_char (nat ((randint 0 AND 0xfe) OR 0x02) mod 16)]"
    by (intro format_02x_octet) simp_all
  note f = f0 format_02x_octet [OF r(3,4)] format_02x_octet [OF r(5,6)]
    format_02x_octet [OF r(7,8)] format_02x_octet [OF r(9,10)] format_02x_octet [OF r(11,12)]
  show ?thesis
    unfolding generate_random_mac_def Let_def upt_6
    by (simp add: f f [unfolded One_nat_def])
qed

lemma validate_mac_empty: "\<not> validate_mac []"
  by (simp add: validate_mac_fits mac_shape_def)

lemma length_split_groups_snoc:
  "\<not> is_separator c \<Longrightarrow> length (split_groups (u @ [c])) = length (split_groups u)"
proof (induction u)
  case Nil
  then show ?case by simp
next
  case (Cons a u)
  have "split_groups (u @ [c]) \<noteq> []" by (rule split_groups_not_Nil)
  moreover have "split_groups u \<noteq> []" by (rule split_groups_not_Nil)
  ultimately show ?case using Cons by (cases "split_groups (u @ [c])"; cases "split_groups u") auto
qed

lemma validate_mac_group_count: "validate_mac t \<Longrightarrow> length (split_groups t) = 6"
  by (auto simp: validate_mac_iff six_hex_groups_def length_split_groups_snoc newline_not_separator)

section \<open>Claims about the command line and the change procedure\<close>

text \<open>
  Claim C8. When \<^verbatim>\<open>main\<close> is left by a \<^verbatim>\<open>KeyboardInterrupt\<close>, the script's handler makes
  the process exit with status 0, whatever the operating system, the platform, the
  random source, the arguments and the world are.
\<close>

theorem script_keyboard_interrupt:
  "fst (main env system randint split_words findall_names a w) = Inl KeyboardInterrupt \<Longrightarrow>
   fst (script env system randint split_words findall_names a w) = 0"
  by (auto simp: script_def split: prod.splits)

theorem script_keyboard_interrupt_witness:
  "fst (main (\<lambda>h c. Interrupted) ''Linux'' (\<lambda>k. 0) (\<lambda>t. []) (\<lambda>t. [])
          \<lparr>arg_interface = Some ''eth0'', arg_mac = None, arg_random = True,
           arg_list = False, arg_show = False\<rparr>
          \<lparr>executed = [], printed = []\<rparr>) = Inl KeyboardInterrupt
   \<and> fst (script (\<lambda>h c. Interrupted) ''Linux'' (\<lambda>k. 0) (\<lambda>t. []) (\<lambda>t. [])
          \<lparr>arg_interface = Some ''eth0'', arg_mac = None, arg_random = True,
           arg_list = False, arg_show = False\<rparr>
          \<lparr>executed = [], printed = []\<rparr>) = 0"
proof -
  have m: "fst (main (\<lambda>h c. Interrupted) ''Linux'' (\<lambda>k. 0) (\<lambda>t. []) (\<lambda>t. [])
          \<lparr>arg_interface = Some ''eth0'', arg_mac = None, arg_random = True,
           arg_list = False, arg_show = False\<rparr>
          \<lparr>executed = [], printed = []\<rparr>) = Inl KeyboardInterrupt"
    by (simp add: main_def get_current_mac_def check_output_def run_process_def emit_def)
  from m script_keyboard_interrupt [OF m] show ?thesis by simp
qed

text \<open>
  Claim C4. For every interface name and every text \<open>m\<close> that \<^verbatim>\<open>validate_mac\<close> rejects,
  \<^verbatim>\<open>change_mac\<close> returns \<^verbatim>\<open>False\<close> and the list of executed commands is the one it
  started with: no command is run.
\<close>

theorem change_mac_invalid:
  "\<not> validate_mac m \<Longrightarrow>
   fst (change_mac env system interface m w) = Inr False
   \<and> executed (snd (change_mac env system interface m w)) = executed w"
  by (simp add: change_mac_def emit_def)


theorem change_mac_invalid_witness:
  "\<not> validate_mac ''00:11:22:33:44''
   \<and> fst (change_mac (\<lambda>h c. Completed 0 (Utf8 []) (Utf8 [])) ''Linux'' ''eth0'' ''00:11:22:33:44''
            \<lparr>executed = [], printed = []\<rparr>) = Inr False
   \<and> executed (snd (change_mac (\<lambda>h c. Completed 0 (Utf8 []) (Utf8 [])) ''Linux'' ''eth0''
            ''00:11:22:33:44'' \<lparr>executed = [], printed = []\<rparr>)) = []"
proof -
  have v: "\<not> validate_mac ''00:11:22:33:44''"
    by (simp add: validate_mac_fits mac_shape_def is_hex_digit_def is_separator_def)
  from v change_mac_invalid [OF v, of "\<lambda>h c. Completed 0 (Utf8 []) (Utf8 [])" "''Linux''" "''eth0''"
      "\<lparr>executed = [], printed = []\<rparr>"]
  show ?thesis by simp
qed

section \<open>Claims about validate_mac\<close>

text \<open>
  Claim C6. \<^verbatim>\<open>validate_mac\<close> does not depend on the case of the hexadecimal letters: a
  text and the text with the case of every hexadecimal letter flipped get the same
  answer; \<^verbatim>\<open>AA:BB:CC:DD:EE:FF\<close> and \<^verbatim>\<open>aa:bb:cc:dd:ee:ff\<close> are both accepted.
\<close>

theorem validate_mac_case_insensitive:
  "validate_mac (flip_hex_case t) = validate_mac t
   \<and> validate_mac ''AA:BB:CC:DD:EE:FF'' \<and> validate_mac ''aa:bb:cc:dd:ee:ff''"
proof -
  have "(drop 17 (flip_hex_case t) = []) = (drop 17 t = [])"
    by (simp add: flip_hex_case_def)
  moreover have "(drop 17 (flip_hex_case t) = [newline]) = (drop 17 t = [newline])"
    by (cases "drop 17 t") (auto simp: flip_hex_case_def drop_map flip_newline)
  ultimately have "validate_mac (flip_hex_case t) = validate_mac t"
    by (simp only: validate_mac_fits fits_flip)
  moreover have "validate_mac ''AA:BB:CC:DD:EE:FF''"
    using example_upper by (simp add: validate_mac_iff)
  moreover have "validate_mac ''aa:bb:cc:dd:ee:ff''"
    using example_lower by (simp add: validate_mac_iff)
  ultimately show ?thesis by simp
qed

theorem validate_mac_case_insensitive_witness:
  "flip_hex_case ''0a:Bc:1d-2E:f3:99'' = ''0A:bC:1D-2e:F3:99''
   \<and> validate_mac ''0A:bC:1D-2e:F3:99'' = validate_mac ''0a:Bc:1d-2E:f3:99''
   \<and> validate_mac ''0a:Bc:1d-2E:f3:99''"
proof -
  have f: "flip_hex_case ''0a:Bc:1d-2E:f3:99'' = ''0A:bC:1D-2e:F3:99''"
    by (simp add: flip_hex_case_def flip_hex_case_char_def)
  have "six_hex_groups ''0a:Bc:1d-2E:f3:99''"
    by (simp add: six_hex_groups_def is_hex_digit_def is_separator_def)
  then have v: "validate_mac ''0a:Bc:1d-2E:f3:99''" by (simp add: validate_mac_iff)
  from validate_mac_case_insensitive [of "''0a:Bc:1d-2E:f3:99''"] f v show ?thesis
    by simp
qed

text \<open>
  Claim C10. An address followed by exactly one newline is accepted by \<^verbatim>\<open>validate_mac\<close>,
  because \<^verbatim>\<open>$\<close> also matches just before a newline that ends the text; the address
  followed by any other single character, or by two or more characters, is rejected.
\<close>

theorem validate_mac_trailing_newline:
  "six_hex_groups u \<Longrightarrow>
   validate_mac (u @ [newline])
   \<and> (\<forall>c. c \<noteq> newline \<longrightarrow> \<not> validate_mac (u @ [c]))
   \<and> (\<forall>ext. 2 \<le> length ext \<longrightarrow> \<not> validate_mac (u @ ext))"
proof (intro conjI allI impI)
  assume six: "six_hex_groups u"
  show "validate_mac (u @ [newline])"
    by (simp add: validate_mac_append [OF six])
next
  fix c
  assume six: "six_hex_groups u" and c: "c \<noteq> newline"
  then show "\<not> validate_mac (u @ [c])"
    by (simp add: validate_mac_append [OF six])
next
  fix ext :: string
  assume six: "six_hex_groups u" and l: "2 \<le> length ext"
  from l have "ext \<noteq> []" "ext \<noteq> [newline]" by auto
  then show "\<not> validate_mac (u @ ext)"
    by (simp add: validate_mac_append [OF six])
qed

theorem validate_mac_trailing_newline_witness:
  "six_hex_groups ''aa:bb:cc:dd:ee:ff''
   \<and> validate_mac ''aa:bb:cc:dd:ee:ff\<newline>''
   \<and> \<not> validate_mac ''aa:bb:cc:dd:ee:ff ''
   \<and> \<not> validate_mac ''aa:bb:cc:dd:ee:ff\<newline>\<newline>''"
proof -
  have six: "six_hex_groups ''aa:bb:cc:dd:ee:ff''" by (rule example_lower)
  have n: "CHR '' '' \<noteq> newline" by (simp add: newline_def)
  from validate_mac_trailing_newline [OF six]
  have a: "validate_mac (''aa:bb:cc:dd:ee:ff'' @ [newline])"
    and b: "\<not> validate_mac (''aa:bb:cc:dd:ee:ff'' @ [CHR '' ''])"
    and c: "\<not> validate_mac (''aa:bb:cc:dd:ee:ff'' @ [newline, newline])"
    using n by simp_all
  from six a b c show ?thesis by (simp add: newline_def)
qed

text \<open>
  Claim C9. \<^verbatim>\<open>validate_mac\<close> accepts mixed separators: whatever the twelve hexadecimal
  digits are, each of the five separators may be \<^verbatim>\<open>:\<close> or \<^verbatim>\<open>-\<close> independently of the
  others; \<^verbatim>\<open>aa:bb-cc:dd:ee:ff\<close> is accepted.
\<close>

theorem validate_mac_mixed_separators:
  "(list_all is_hex_digit [a1, a2, b1, b2, c1, c2, d1, d2, e1, e2, f1, f2]
    \<and> list_all is_separator [s1, s2, s3, s4, s5]
    \<longrightarrow> validate_mac [a1, a2, s1, b1, b2, s2, c1, c2, s3, d1, d2, s4, e1, e2, s5, f1, f2])
   \<and> validate_mac ''aa:bb-cc:dd:ee:ff''"
proof -
  have "validate_mac ''aa:bb-cc:dd:ee:ff''"
    by (simp add: validate_mac_fits mac_shape_def is_hex_digit_def is_separator_def)
  then show ?thesis
    by (simp add: validate_mac_fits mac_shape_def)
qed

theorem validate_mac_mixed_separators_witness:
  "validate_mac ''00-1A:2b-3C:4d-5E''"
  using validate_mac_mixed_separators
    [of "CHR ''0''" "CHR ''0''" "CHR ''1''" "CHR ''A''" "CHR ''2''" "CHR ''b''"
        "CHR ''3''" "CHR ''C''" "CHR ''4''" "CHR ''d''" "CHR ''5''" "CHR ''E''"
        "CHR ''-''" "CHR '':''" "CHR ''-''" "CHR '':''" "CHR ''-''"]
  by (simp add: is_hex_digit_def is_separator_def)

text \<open>
  Claim C1 says that \<^verbatim>\<open>validate_mac\<close> accepts exactly the texts that are six 2-digit
  hexadecimal groups with nothing after the last group. The program departs from it at
  the text \<^verbatim>\<open>aa:bb:cc:dd:ee:ff\<close> followed by a newline: it is accepted although it is not
  six 2-digit hexadecimal groups. (Lemma \<open>validate_mac_iff\<close> gives all accepted texts.)
\<close>

theorem validate_mac_accepts_trailing_newline:
  "validate_mac ''aa:bb:cc:dd:ee:ff\<newline>'' \<and> \<not> six_hex_groups ''aa:bb:cc:dd:ee:ff\<newline>''"
proof -
  have "validate_mac (''aa:bb:cc:dd:ee:ff'' @ [newline])"
    using validate_mac_append [OF example_lower, of "[newline]"] by simp
  moreover have "\<not> six_hex_groups ''aa:bb:cc:dd:ee:ff\<newline>''"
    by (simp add: six_hex_groups_shape)
  ultimately show ?thesis by (simp add: newline_def)
qed

theorem validate_mac_accepts_trailing_newline_witness:
  "\<exists>t. validate_mac t \<and> \<not> six_hex_groups t"
  using validate_mac_accepts_trailing_newline by blast

text \<open>
  Claim C5 says that \<^verbatim>\<open>validate_mac\<close> answers false for every text with a character that
  is not hexadecimal or with a group of another length than two. The program departs
  from it at the text \<^verbatim>\<open>00-11-22-33-44-55\<close> followed by a newline: it is accepted although
  the newline is neither a hexadecimal digit nor a separator and its last group has three
  characters.
\<close>

theorem validate_mac_accepts_malformed:
  "validate_mac ''00-11-22-33-44-55\<newline>''
   \<and> \<not> list_all (\<lambda>c. is_hex_digit c \<or> is_separator c) ''00-11-22-33-44-55\<newline>''
   \<and> \<not> list_all (\<lambda>g. length g = 2) (split_groups ''00-11-22-33-44-55\<newline>'')"
proof -
  have "six_hex_groups ''00-11-22-33-44-55''"
    by (simp add: six_hex_groups_def is_hex_digit_def is_separator_def)
  then have "validate_mac (''00-11-22-33-44-55'' @ [newline])"
    using validate_mac_append [of "''00-11-22-33-44-55''" "[newline]"] by simp
  then have "validate_mac ''00-11-22-33-44-55\<newline>''" by (simp add: newline_def)
  moreover have "\<not> list_all (\<lambda>c. is_hex_digit c \<or> is_separator c) ''00-11-22-33-44-55\<newline>''"
    by (simp add: is_hex_digit_def is_separator_def)
  moreover have "\<not> list_all (\<lambda>g. length g = 2) (split_groups ''00-11-22-33-44-55\<newline>'')"
    by (simp add: is_separator_def)
  ultimately show ?thesis by simp
qed

theorem validate_mac_accepts_malformed_witness:
  "\<exists>t. validate_mac t \<and> \<not> list_all (\<lambda>c. is_hex_digit c \<or> is_separator c) t
       \<and> \<not> list_all (\<lambda>g. length g = 2) (split_groups t)"
  using validate_mac_accepts_malformed by blast

section \<open>Claims about reading the current address\<close>

text \<open>
  Claim C3. The scan of \<^verbatim>\<open>get_current_mac\<close> over the text the query command printed:
  when the text holds no occurrence of six hexadecimal groups the result is \<^verbatim>\<open>None\<close>;
  when it holds one, the result is an occurrence that starts no later than any other, the
  leftmost. On \<^verbatim>\<open>link/ether 02:1a:3c:4d:5e:6f brd ff:ff:ff:ff:ff:ff\<close> the result is
  \<^verbatim>\<open>02:1a:3c:4d:5e:6f\<close>.
\<close>

theorem get_current_mac_first_match:
  assumes "env (executed w)
             (if system = ''Darwin'' then [''ifconfig'', interface]
              else [''ip'', ''link'', ''show'', interface]) = Completed 0 (Utf8 text) err"
  shows "((\<forall>k m. \<not> occurs_at text k m) \<longrightarrow>
            fst (get_current_mac env system interface w) = Inr None)
         \<and> ((\<exists>k m. occurs_at text k m) \<longrightarrow>
              (\<exists>k m. fst (get_current_mac env system interface w) = Inr (Some m)
                 \<and> occurs_at text k m \<and> (\<forall>k' m'. occurs_at text k' m' \<longrightarrow> k \<le> k')))
         \<and> fst (get_current_mac
                  (\<lambda>h c. Completed 0
                     (Utf8 ''link/ether 02:1a:3c:4d:5e:6f brd ff:ff:ff:ff:ff:ff'') (Utf8 []))
                  ''Linux'' ''eth0'' \<lparr>executed = [], printed = []\<rparr>)
             = Inr (Some ''02:1a:3c:4d:5e:6f'')"
proof (intro conjI impI)
  assume "\<forall>k m. \<not> occurs_at text k m"
  then have "re_search mac_regex text = None" unfolding re_search_mac_None .
  with get_current_mac_output [where env = env and w = w and system = system and interface = interface, OF assms]
  show "fst (get_current_mac env system interface w) = Inr None" by simp
next
  assume "\<exists>k m. occurs_at text k m"
  then have "re_search mac_regex text \<noteq> None" unfolding re_search_mac_None by blast
  then obtain m where m: "re_search mac_regex text = Some m" by blast
  from re_search_mac_Some [OF m] obtain k where
    "occurs_at text k m" "\<forall>k' m'. occurs_at text k' m' \<longrightarrow> k \<le> k'" by blast
  moreover from m get_current_mac_output [where env = env and w = w and system = system and interface = interface, OF assms]
  have "fst (get_current_mac env system interface w) = Inr (Some m)" by simp
  ultimately show "\<exists>k m. fst (get_current_mac env system interface w) = Inr (Some m)
                 \<and> occurs_at text k m \<and> (\<forall>k' m'. occurs_at text k' m' \<longrightarrow> k \<le> k')"
    by blast
next
  have "re_search mac_regex ''link/ether 02:1a:3c:4d:5e:6f brd ff:ff:ff:ff:ff:ff''
        = Some ''02:1a:3c:4d:5e:6f''"
    by (simp add: re_search_def rmatch_mac_regex mac_shape_def is_hex_digit_def is_separator_def)
  then show "fst (get_current_mac
                  (\<lambda>h c. Completed 0
                     (Utf8 ''link/ether 02:1a:3c:4d:5e:6f brd ff:ff:ff:ff:ff:ff'') (Utf8 []))
                  ''Linux'' ''eth0'' \<lparr>executed = [], printed = []\<rparr>)
             = Inr (Some ''02:1a:3c:4d:5e:6f'')"
    by (simp add: get_current_mac_def check_output_def run_process_def decode_def)
qed

theorem get_current_mac_first_match_witness:
  "(\<forall>k m. \<not> occurs_at ''1: lo: <LOOPBACK,UP>'' k m)
   \<and> fst (get_current_mac (\<lambda>h c. Completed 0 (Utf8 ''1: lo: <LOOPBACK,UP>'') (Utf8 []))
            ''Linux'' ''lo'' \<lparr>executed = [], printed = []\<rparr>) = Inr None
   \<and> occurs_at ''ether 02:1a:3c:4d:5e:6f ff:ff:ff:ff:ff:ff'' 6 ''02:1a:3c:4d:5e:6f''
   \<and> (\<exists>k m. fst (get_current_mac
                    (\<lambda>h c. Completed 0 (Utf8 ''ether 02:1a:3c:4d:5e:6f ff:ff:ff:ff:ff:ff'') (Utf8 []))
                    ''Darwin'' ''en0'' \<lparr>executed = [], printed = []\<rparr>) = Inr (Some m)
          \<and> occurs_at ''ether 02:1a:3c:4d:5e:6f ff:ff:ff:ff:ff:ff'' k m
          \<and> (\<forall>k' m'. occurs_at ''ether 02:1a:3c:4d:5e:6f ff:ff:ff:ff:ff:ff'' k' m' \<longrightarrow> k \<le> k'))"
proof -
  have "re_search mac_regex ''1: lo: <LOOPBACK,UP>'' = None"
    by (simp add: re_search_def rmatch_mac_regex mac_shape_def is_hex_digit_def is_separator_def)
  then have n: "\<forall>k m. \<not> occurs_at ''1: lo: <LOOPBACK,UP>'' k m"
    unfolding re_search_mac_None .
  have o: "occurs_at ''ether 02:1a:3c:4d:5e:6f ff:ff:ff:ff:ff:ff'' 6 ''02:1a:3c:4d:5e:6f''"
    by (simp add: occurs_at_iff mac_shape_def is_hex_digit_def is_separator_def)
  have e1: "(\<lambda>h c. Completed 0 (Utf8 ''1: lo: <LOOPBACK,UP>'') (Utf8 []))
              (executed \<lparr>executed = [], printed = []\<rparr>)
              (if ''Linux'' = ''Darwin'' then [''ifconfig'', ''lo'']
               else [''ip'', ''link'', ''show'', ''lo''])
            = Completed 0 (Utf8 ''1: lo: <LOOPBACK,UP>'') (Utf8 [])"
    by simp
  have e2: "(\<lambda>h c. Completed 0 (Utf8 ''ether 02:1a:3c:4d:5e:6f ff:ff:ff:ff:ff:ff'') (Utf8 []))
              (executed \<lparr>executed = [], printed = []\<rparr>)
              (if ''Darwin'' = ''Darwin'' then [''ifconfig'', ''en0'']
               else [''ip'', ''link'', ''show'', ''en0''])
            = Completed 0 (Utf8 ''ether 02:1a:3c:4d:5e:6f ff:ff:ff:ff:ff:ff'') (Utf8 [])"
    by simp
  from get_current_mac_first_match
    [where env = "\<lambda>h c. Completed 0 (Utf8 ''1: lo: <LOOPBACK,UP>'') (Utf8 [])"
       and w = "\<lparr>executed = [], printed = []\<rparr>" and system = "''Linux''"
       and interface = "''lo''", OF e1] n
  have a: "fst (get_current_mac (\<lambda>h c. Completed 0 (Utf8 ''1: lo: <LOOPBACK,UP>'') (Utf8 []))
            ''Linux'' ''lo'' \<lparr>executed = [], printed = []\<rparr>) = Inr None"
    by blast
  from o have ex: "\<exists>k m. occurs_at ''ether 02:1a:3c:4d:5e:6f ff:ff:ff:ff:ff:ff'' k m" by blast
  from get_current_mac_first_match
    [where env = "\<lambda>h c. Completed 0 (Utf8 ''ether 02:1a:3c:4d:5e:6f ff:ff:ff:ff:ff:ff'') (Utf8 [])"
       and w = "\<lparr>executed = [], printed = []\<rparr>" and system = "''Darwin''"
       and interface = "''en0''", OF e2] ex
  have b: "\<exists>k m. fst (get_current_mac
                    (\<lambda>h c. Completed 0 (Utf8 ''ether 02:1a:3c:4d:5e:6f ff:ff:ff:ff:ff:ff'') (Utf8 []))
                    ''Darwin'' ''en0'' \<lparr>executed = [], printed = []\<rparr>) = Inr (Some m)
          \<and> occurs_at ''ether 02:1a:3c:4d:5e:6f ff:ff:ff:ff:ff:ff'' k m
          \<and> (\<forall>k' m'. occurs_at ''ether 02:1a:3c:4d:5e:6f ff:ff:ff:ff:ff:ff'' k' m' \<longrightarrow> k \<le> k')"
    by blast
  from n a o b show ?thesis by (intro conjI)
qed

text \<open>
  Claim C7. \<^verbatim>\<open>verify_change\<close> returns \<^verbatim>\<open>True\<close> exactly when the address read again
  is found and its lowercase form equals the lowercase form of the expected address;
  when no address is found, or the two differ, it returns \<^verbatim>\<open>False\<close>.
\<close>

theorem verify_change_iff:
  "(fst (verify_change env system interface expected_mac w) = Inr True)
     = (\<exists>cur. fst (get_current_mac env system interface w) = Inr (Some cur)
              \<and> lower cur = lower expected_mac)
   \<and> (fst (get_current_mac env system interface w) = Inr None \<longrightarrow>
        fst (verify_change env system interface expected_mac w) = Inr False)
   \<and> (\<forall>cur. fst (get_current_mac env system interface w) = Inr (Some cur)
             \<and> lower cur \<noteq> lower expected_mac \<longrightarrow>
        fst (verify_change env system interface expected_mac w) = Inr False)"
proof -
  obtain r w1 where g: "get_current_mac env system interface w = (r, w1)"
    by (cases "get_current_mac env system interface w")
  have ne: "cur \<noteq> []" if "r = Inr (Some cur)" for cur
  proof -
    from that g have "fst (get_current_mac env system interface w) = Inr (Some cur)" by simp
    from get_current_mac_Some [OF this] obtain t where "re_search mac_regex t = Some cur"
      by blast
    from re_search_mac_Some [OF this] show ?thesis by (blast dest: occurs_at_not_empty)
  qed
  show ?thesis
  proof (cases r)
    case (Inl e)
    with g show ?thesis by (simp add: verify_change_def)
  next
    case (Inr v)
    show ?thesis
    proof (cases v)
      case None
      with Inr g show ?thesis by (simp add: verify_change_def)
    next
      case (Some cur)
      with Inr ne have "cur \<noteq> []" by simp
      with Some Inr g show ?thesis by (simp add: verify_change_def truthy_def)
    qed
  qed
qed

theorem verify_change_iff_witness:
  "fst (get_current_mac
          (\<lambda>h c. Completed 0 (Utf8 ''link/ether 02:1a:3c:4d:5e:6f brd ff:ff:ff:ff:ff:ff'') (Utf8 []))
          ''Linux'' ''eth0'' \<lparr>executed = [], printed = []\<rparr>) = Inr (Some ''02:1a:3c:4d:5e:6f'')
   \<and> lower ''02:1a:3c:4d:5e:6f'' = lower ''02:1A:3C:4D:5E:6F''
   \<and> fst (verify_change
          (\<lambda>h c. Completed 0 (Utf8 ''link/ether 02:1a:3c:4d:5e:6f brd ff:ff:ff:ff:ff:ff'') (Utf8 []))
          ''Linux'' ''eth0'' ''02:1A:3C:4D:5E:6F'' \<lparr>executed = [], printed = []\<rparr>) = Inr True
   \<and> lower ''02:1a:3c:4d:5e:6f'' \<noteq> lower ''02:1a:3c:4d:5e:70''
   \<and> fst (verify_change
          (\<lambda>h c. Completed 0 (Utf8 ''link/ether 02:1a:3c:4d:5e:6f brd ff:ff:ff:ff:ff:ff'') (Utf8 []))
          ''Linux'' ''eth0'' ''02:1a:3c:4d:5e:70'' \<lparr>executed = [], printed = []\<rparr>) = Inr False
   \<and> fst (get_current_mac (\<lambda>h c. Completed 1 (Utf8 []) (Utf8 []))
          ''Linux'' ''eth9'' \<lparr>executed = [], printed = []\<rparr>) = Inr None
   \<and> fst (verify_change (\<lambda>h c. Completed 1 (Utf8 []) (Utf8 []))
          ''Linux'' ''eth9'' ''02:1a:3c:4d:5e:6f'' \<lparr>executed = [], printed = []\<rparr>) = Inr False"
proof -
  have g: "fst (get_current_mac
          (\<lambda>h c. Completed 0 (Utf8 ''link/ether 02:1a:3c:4d:5e:6f brd ff:ff:ff:ff:ff:ff'') (Utf8 []))
          ''Linux'' ''eth0'' \<lparr>executed = [], printed = []\<rparr>) = Inr (Some ''02:1a:3c:4d:5e:6f'')"
    by (simp add: get_current_mac_def check_output_def run_process_def decode_def
        re_search_def rmatch_mac_regex mac_shape_def is_hex_digit_def is_separator_def)
  have l1: "lower ''02:1a:3c:4d:5e:6f'' = lower ''02:1A:3C:4D:5E:6F''"
    by (simp add: lower_def lower_char_def char_eq_code)
  have l2: "lower ''02:1a:3c:4d:5e:6f'' \<noteq> lower ''02:1a:3c:4d:5e:70''"
    by (simp add: lower_def lower_char_def char_eq_code)
  have n: "fst (get_current_mac (\<lambda>h c. Completed 1 (Utf8 []) (Utf8 []))
          ''Linux'' ''eth9'' \<lparr>executed = [], printed = []\<rparr>) = Inr None"
    by (simp add: get_current_mac_def check_output_def run_process_def emit_def)
  note v1 = verify_change_iff
    [of "\<lambda>h c. Completed 0 (Utf8 ''link/ether 02:1a:3c:4d:5e:6f brd ff:ff:ff:ff:ff:ff'') (Utf8 [])"
        "''Linux''" "''eth0''" "''02:1A:3C:4D:5E:6F''" "\<lparr>executed = [], printed = []\<rparr>"]
  note v2 = verify_change_iff
    [of "\<lambda>h c. Completed 0 (Utf8 ''link/ether 02:1a:3c:4d:5e:6f brd ff:ff:ff:ff:ff:ff'') (Utf8 [])"
        "''Linux''" "''eth0''" "''02:1a:3c:4d:5e:70''" "\<lparr>executed = [], printed = []\<rparr>"]
  note v3 = verify_change_iff
    [of "\<lambda>h c. Completed 1 (Utf8 []) (Utf8 [])"
        "''Linux''" "''eth9''" "''02:1a:3c:4d:5e:6f''" "\<lparr>executed = [], printed = []\<rparr>"]
  from v1 g l1 have a: "fst (verify_change
          (\<lambda>h c. Completed 0 (Utf8 ''link/ether 02:1a:3c:4d:5e:6f brd ff:ff:ff:ff:ff:ff'') (Utf8 []))
          ''Linux'' ''eth0'' ''02:1A:3C:4D:5E:6F'' \<lparr>executed = [], printed = []\<rparr>) = Inr True"
    by blast
  from v2 g l2 have b: "fst (verify_change
          (\<lambda>h c. Completed 0 (Utf8 ''link/ether 02:1a:3c:4d:5e:6f brd ff:ff:ff:ff:ff:ff'') (Utf8 []))
          ''Linux'' ''eth0'' ''02:1a:3c:4d:5e:70'' \<lparr>executed = [], printed = []\<rparr>) = Inr False"
    by blast
  from v3 n have c: "fst (verify_change (\<lambda>h c. Completed 1 (Utf8 []) (Utf8 []))
          ''Linux'' ''eth9'' ''02:1a:3c:4d:5e:6f'' \<lparr>executed = [], printed = []\<rparr>) = Inr False"
    by blast
  from g l1 a l2 b n c show ?thesis by (intro conjI)
qed

section \<open>Claims about generated addresses\<close>

text \<open>
  Claim C2. Whatever values between 0 and 255 the random source returns, the address that
  \<^verbatim>\<open>generate_random_mac\<close> builds is accepted by \<^verbatim>\<open>validate_mac\<close>, its first octet has
  bit 0 clear and bit 1 set, and it is six groups of two lowercase hexadecimal digits
  joined by \<^verbatim>\<open>:\<close>.
\<close>

theorem generate_random_mac_ok:
  assumes "\<forall>k<6. 0 \<le> randint k \<and> randint k \<le> 255"
  shows "validate_mac (generate_random_mac randint)
     \<and> \<not> bit (hex_value (take 2 (generate_random_mac randint))) 0
     \<and> bit (hex_value (take 2 (generate_random_mac randint))) 1
     \<and> (\<exists>gs. length gs = 6
            \<and> list_all (\<lambda>g. length g = 2 \<and> list_all is_lower_hex_digit g) gs
            \<and> generate_random_mac randint = join '':'' gs)"
proof -
  define v where "v = (randint 0 AND 0xfe) OR 0x02"
  note t = generate_random_mac_text [OF assms, folded v_def]
  from assms have "0 \<le> randint 0" "randint 0 \<le> 255" by simp_all
  from first_octet_range [OF this] have v: "0 \<le> v" "v \<le> 255" by (simp_all add: v_def)
  have hx: "is_hex_digit (hex_char k)" for k
    by (rule lower_hex_is_hex) (rule hex_char_lower)
  have sep: "is_separator (CHR '':'')" by (simp add: is_separator_def)
  have valid: "validate_mac (generate_random_mac randint)"
    unfolding t by (simp add: validate_mac_fits mac_shape_def hx sep)
  from v have "nat v div 16 < 16" "nat v mod 16 < 16" by simp_all
  then have "hex_value [hex_char (nat v div 16), hex_char (nat v mod 16)]
             = 16 * (nat v div 16) + nat v mod 16"
    by (rule hex_value_pair)
  then have hv: "hex_value (take 2 (generate_random_mac randint)) = nat v"
    unfolding t by simp
  from first_octet_bits [of "randint 0"] have "\<not> bit v 0" "bit v 1" by (simp_all add: v_def)
  with v have bits: "\<not> bit (nat v) 0" "bit (nat v) 1" by (simp_all add: bit_nat_iff)
  let ?gs = "[[hex_char (nat v div 16), hex_char (nat v mod 16)],
      [hex_char (nat (randint 1) div 16), hex_char (nat (randint 1) mod 16)],
      [hex_char (nat (randint 2) div 16), hex_char (nat (randint 2) mod 16)],
      [hex_char (nat (randint 3) div 16), hex_char (nat (randint 3) mod 16)],
      [hex_char (nat (randint 4) div 16), hex_char (nat (randint 4) mod 16)],
      [hex_char (nat (randint 5) div 16), hex_char (nat (randint 5) mod 16)]]"
  have "length ?gs = 6" by simp
  moreover have "list_all (\<lambda>g. length g = 2 \<and> list_all is_lower_hex_digit g) ?gs"
    by (simp add: hex_char_lower)
  moreover have "generate_random_mac randint = join '':'' ?gs"
    unfolding t by simp
  ultimately have "\<exists>gs. length gs = 6
            \<and> list_all (\<lambda>g. length g = 2 \<and> list_all is_lower_hex_digit g) gs
            \<and> generate_random_mac randint = join '':'' gs"
    by blast
  with valid hv bits show ?thesis by simp
qed

theorem generate_random_mac_ok_witness:
  "generate_random_mac (\<lambda>k. 255) = ''fe:ff:ff:ff:ff:ff''
   \<and> validate_mac ''fe:ff:ff:ff:ff:ff''
   \<and> \<not> bit (hex_value ''fe'') 0 \<and> bit (hex_value ''fe'') 1"
proof -
  have h: "\<forall>k<6. (0::int) \<le> (\<lambda>k. 255) k \<and> (\<lambda>k. 255) k \<le> (255::int)" by simp
  have "(255::int) AND 254 = 254" by simp
  then have g: "generate_random_mac (\<lambda>k. 255) = ''fe:ff:ff:ff:ff:ff''"
    by (simp add: generate_random_mac_text [OF h] hex_char_def)
  from generate_random_mac_ok [OF h] g show ?thesis by simp
qed

end
